theory Spec2Isabelle
  imports Main
begin

section \<open>The command catalog of astrbot\_plugin\_help (main.py)\<close>

subsection \<open>Python values\<close>

text \<open>
  A Python \<open>str\<close> is a sequence of Unicode code points, so a string is a list of code
  points, each a natural number. \<open>str\<close> embeds an ASCII literal of the source.
\<close>

type_synonym pystr = "nat list"

definition str :: "string \<Rightarrow> pystr" where
  "str s = map of_char s"

text \<open>
  \<open>str.strip()\<close> without argument removes leading and trailing whitespace; a code
  point is whitespace when \<open>str.isspace\<close> holds of it: U+0009..U+000D, U+001C..U+0020,
  U+0085, U+00A0, U+1680, U+2000..U+200A, U+2028, U+2029, U+202F, U+205F, U+3000.
\<close>

definition isspace :: "nat \<Rightarrow> bool" where
  "isspace c =
     ((9 \<le> c \<and> c \<le> 13) \<or> (28 \<le> c \<and> c \<le> 32) \<or> c = 133 \<or> c = 160 \<or> c = 5760
      \<or> (8192 \<le> c \<and> c \<le> 8202) \<or> c = 8232 \<or> c = 8233 \<or> c = 8239 \<or> c = 8287
      \<or> c = 12288)"

definition lstrip :: "pystr \<Rightarrow> pystr" where
  "lstrip s = dropWhile isspace s"

definition rstrip :: "pystr \<Rightarrow> pystr" where
  "rstrip s = rev (dropWhile isspace (rev s))"

definition strip :: "pystr \<Rightarrow> pystr" where
  "strip s = rstrip (lstrip s)"

text \<open>The code point of \<open>":"\<close>, the separator of a display-name entry.\<close>

definition colon :: nat where
  "colon = 58"

text \<open>
  \<open>raw.split(":", 1)\<close> for a \<open>raw\<close> that contains the separator: the part before the
  first separator and the part after it.
\<close>

definition split_colon :: "pystr \<Rightarrow> pystr \<times> pystr" where
  "split_colon raw =
     (takeWhile (\<lambda>c. c \<noteq> colon) raw, tl (dropWhile (\<lambda>c. c \<noteq> colon) raw))"

text \<open>
  A configuration value is dynamically typed. The code observes of it only whether it is a
  \<open>str\<close>, whether it is a \<open>list\<close>, and its truth value; \<open>PyOther b\<close> is any object
  of another type (a number, a dict, ...) whose truth value is \<open>b\<close>.
\<close>

datatype pyval =
    PyNone
  | PyBool bool
  | PyStr pystr
  | PyList "pyval list"
  | PyOther bool

fun truthy :: "pyval \<Rightarrow> bool" where
  "truthy PyNone = False"
| "truthy (PyBool b) = b"
| "truthy (PyStr s) = (s \<noteq> [])"
| "truthy (PyList xs) = (xs \<noteq> [])"
| "truthy (PyOther b) = b"

text \<open>
  An attribute of an object is absent or present; \<open>getattr(obj, name, default)\<close> gives the
  default for an absent one.
\<close>

datatype 'a attr = Absent | Present 'a

fun getattr :: "'a attr \<Rightarrow> 'a \<Rightarrow> 'a" where
  "getattr Absent dflt = dflt"
| "getattr (Present v) dflt = v"

text \<open>\<open>x or ""\<close> for an optional string, and \<open>a or b\<close> for two strings.\<close>

fun or_empty :: "pystr option \<Rightarrow> pystr" where
  "or_empty None = []"
| "or_empty (Some s) = s"

definition py_or :: "pystr \<Rightarrow> pystr \<Rightarrow> pystr" where
  "py_or a b = (if a \<noteq> [] then a else b)"

text \<open>\<open>not x\<close> for an optional string: \<open>None\<close> and \<open>""\<close> are false.\<close>

fun falsy :: "pystr option \<Rightarrow> bool" where
  "falsy None = True"
| "falsy (Some s) = (s = [])"

subsection \<open>The host's data\<close>

datatype PermissionType = ADMIN | MEMBER

datatype HandlerFilter =
    CommandFilter pystr
  | CommandGroupFilter pystr
  | PermissionTypeFilter PermissionType
  | OtherFilter

record StarHandlerMetadata =
  handler_module_path :: pystr
  desc :: "pystr option"
  event_filters :: "HandlerFilter list"

text \<open>An element of the handler registry is a \<open>StarHandlerMetadata\<close> or some other object.\<close>

datatype registry_item = Handler StarHandlerMetadata | NotHandler

text \<open>The object behind \<open>star_cls\<close>: an instance of \<open>Star\<close> or not.\<close>

datatype pyobject = StarInstance | OtherInstance

fun isinstance_Star :: "pyobject option \<Rightarrow> bool" where
  "isinstance_Star (Some StarInstance) = True"
| "isinstance_Star _ = False"

record StarMetadata =
  name :: "pystr option attr"
  display_name :: "pystr option attr"
  module_path :: "pystr option attr"
  star_cls :: "pyobject option attr"
  activated :: bool

record config =
  show_all_cmds :: "pyval attr"
  show_builtin_cmds :: "pyval attr"
  plugin_display_names :: "pyval attr"

text \<open>
  \<open>context.get_all_stars()\<close> returns the descriptors or raises an exception (with its
  message); the registry is the global \<open>star_handlers_registry\<close>.
\<close>

datatype exn = Exception pystr

record host =
  get_all_stars :: "exn + StarMetadata list"
  star_handlers_registry :: "registry_item list"

subsection \<open>The catalog\<close>

text \<open>
  An entry is the dict with the keys \<open>"command"\<close>, \<open>"desc"\<close> and \<open>"permission"\<close>
  (the field of \<open>"desc"\<close> is \<open>description\<close> here, \<open>desc\<close> being the handler's attribute).
\<close>

record CommandEntry =
  command :: pystr
  description :: pystr
  permission :: pystr

text \<open>
  A Python dict keeps its keys in insertion order: the catalog is an association list with
  distinct keys. \<open>dict_append d k v\<close> is \<open>d[k].append(v)\<close> on a \<open>defaultdict(list)\<close>.
\<close>

type_synonym catalog = "(pystr \<times> CommandEntry list) list"

fun dict_append :: "('k \<times> 'v list) list \<Rightarrow> 'k \<Rightarrow> 'v \<Rightarrow> ('k \<times> 'v list) list" where
  "dict_append [] k v = [(k, [v])]"
| "dict_append ((k', vs) # d) k v =
     (if k' = k then (k', vs @ [v]) # d else (k', vs) # dict_append d k v)"

text \<open>The entries of a group; none when the catalog has no such key.\<close>

fun group_of :: "('k \<times> 'v list) list \<Rightarrow> 'k \<Rightarrow> 'v list" where
  "group_of [] k = []"
| "group_of ((k', vs) # d) k = (if k' = k then vs else group_of d k)"

text \<open>The log records the logger calls of the source, by level and message.\<close>

datatype log_record =
    Debug_found_activated nat
  | Error_fetch_failed exn
  | Warning_no_plugins
  | Warning_invalid_metadata "pystr option" "pystr option"

subsection \<open>The operations\<close>

text \<open>\<open>_get_permission_level\<close>: the loop returns at the first \<open>PermissionTypeFilter\<close>.\<close>

fun permission_of_filters :: "HandlerFilter list \<Rightarrow> pystr" where
  "permission_of_filters [] = str ''everyone''"
| "permission_of_filters (PermissionTypeFilter t # fs) =
     (if t = ADMIN then str ''admin'' else str ''member'')"
| "permission_of_filters (f # fs) = permission_of_filters fs"

definition get_permission_level :: "StarHandlerMetadata \<Rightarrow> pystr" where
  "get_permission_level handler = permission_of_filters (event_filters handler)"

text \<open>\<open>_should_include_command\<close>.\<close>

definition should_include_command :: "config \<Rightarrow> pystr \<Rightarrow> bool" where
  "should_include_command cfg permission_level =
     (if truthy (getattr (show_all_cmds cfg) (PyBool False)) then True
      else permission_level \<noteq> str ''admin'')"

text \<open>\<open>_get_plugin_display_name_map\<close>: one round of its loop, then the function.\<close>

definition display_name_step :: "(pystr \<rightharpoonup> pystr) \<Rightarrow> pyval \<Rightarrow> (pystr \<rightharpoonup> pystr)" where
  "display_name_step mapping item =
     (case item of
        PyStr s \<Rightarrow>
          (let raw = strip s in
           if raw = [] \<or> colon \<notin> set raw then mapping
           else
             (let (plugin_name, display_name) = split_colon raw;
                  plugin_name = strip plugin_name;
                  display_name = strip display_name
              in if plugin_name \<noteq> [] \<and> display_name \<noteq> []
                 then mapping(plugin_name \<mapsto> display_name)
                 else mapping))
      | _ \<Rightarrow> mapping)"

definition get_plugin_display_name_map :: "config \<Rightarrow> (pystr \<rightharpoonup> pystr)" where
  "get_plugin_display_name_map cfg =
     (let v = getattr (plugin_display_names cfg) (PyList []);
          configured_names = (if truthy v then v else PyList [])
      in case configured_names of
           PyList items \<Rightarrow> foldl display_name_step Map.empty items
         | _ \<Rightarrow> Map.empty)"

text \<open>\<open>display_name_map.get(plugin_name, "")\<close>.\<close>

definition dict_get :: "(pystr \<rightharpoonup> pystr) \<Rightarrow> pystr \<Rightarrow> pystr \<Rightarrow> pystr" where
  "dict_get m k dflt = (case m k of None \<Rightarrow> dflt | Some v \<Rightarrow> v)"

text \<open>
  The inner loop over a handler's filters: the name of the first \<open>CommandFilter\<close> or
  \<open>CommandGroupFilter\<close>, where the loop breaks; \<open>None\<close> when there is none.
\<close>

fun find_command_name :: "HandlerFilter list \<Rightarrow> pystr option" where
  "find_command_name [] = None"
| "find_command_name (CommandFilter command_name # fs) = Some command_name"
| "find_command_name (CommandGroupFilter group_name # fs) = Some group_name"
| "find_command_name (f # fs) = find_command_name fs"

text \<open>
  The state of the loops of \<open>get_all_commands\<close>: \<open>plugin_commands\<close> and
  \<open>plugin_command_keys\<close>, a \<open>defaultdict(set)\<close> (a missing key reads as the empty set).
\<close>

type_synonym dedupe_key = "pystr \<times> pystr \<times> pystr"

type_synonym loop_state = "catalog \<times> (pystr \<Rightarrow> dedupe_key set)"

text \<open>One round of the loop over the handler registry, for one plugin.\<close>

definition handler_step ::
  "config \<Rightarrow> pystr \<Rightarrow> pystr option \<Rightarrow> loop_state \<Rightarrow> registry_item \<Rightarrow> loop_state" where
  "handler_step cfg plugin_displayname plugin_module_path st item =
     (case item of
        NotHandler \<Rightarrow> st
      | Handler handler \<Rightarrow>
          if Some (handler_module_path handler) \<noteq> plugin_module_path then st
          else
            (case find_command_name (event_filters handler) of
               None \<Rightarrow> st
             | Some command_name \<Rightarrow>
                 if command_name = [] then st
                 else
                   (let permission_level = get_permission_level handler in
                    if \<not> should_include_command cfg permission_level then st
                    else
                      (let desc_text = strip (or_empty (desc handler));
                           dedupe_key = (command_name, desc_text, permission_level)
                       in if dedupe_key \<in> snd st plugin_displayname then st
                          else
                            (dict_append (fst st) plugin_displayname
                               \<lparr>command = command_name, description = desc_text,
                                permission = permission_level\<rparr>,
                             (snd st)(plugin_displayname :=
                                insert dedupe_key (snd st plugin_displayname)))))))"

text \<open>
  The display name of a plugin:
  \<open>plugin_native_displayname or display_name_map.get(plugin_name, "") or plugin_name\<close>.
\<close>

definition plugin_displayname ::
  "(pystr \<rightharpoonup> pystr) \<Rightarrow> pystr \<Rightarrow> pystr \<Rightarrow> pystr" where
  "plugin_displayname display_name_map plugin_native_displayname plugin_name =
     py_or plugin_native_displayname
       (py_or (dict_get display_name_map plugin_name []) plugin_name)"

text \<open>
  The default of \<open>getattr(star, "name", ...)\<close>: the four code points U+672A, U+77E5,
  U+63D2, U+4EF6 ("unknown plugin").
\<close>

definition unknown_plugin :: pystr where
  "unknown_plugin = [26410, 30693, 25554, 20214]"

text \<open>
  One round of the loop over the activated plugins. A \<open>name\<close> that is \<open>None\<close> equals none
  of the names compared with and is false, so such a plugin falls through to the warning.
\<close>

definition star_step ::
  "config \<Rightarrow> (pystr \<rightharpoonup> pystr) \<Rightarrow> registry_item list \<Rightarrow>
     loop_state \<times> log_record list \<Rightarrow> StarMetadata \<Rightarrow> loop_state \<times> log_record list" where
  "star_step cfg display_name_map registry stl star =
     (let plugin_name_opt = getattr (name star) (Some unknown_plugin);
          plugin_native_displayname = strip (or_empty (getattr (display_name star) (Some [])));
          plugin_instance = getattr (star_cls star) None;
          plugin_module_path = getattr (module_path star) None
      in case plugin_name_opt of
           None \<Rightarrow> (fst stl, snd stl @ [Warning_invalid_metadata None plugin_module_path])
         | Some plugin_name \<Rightarrow>
             (let displayname =
                    plugin_displayname display_name_map plugin_native_displayname plugin_name
              in if plugin_name = str ''astrbot''
                    \<or> plugin_name = str ''astrbot_plugin_help''
                    \<or> plugin_name = str ''astrbot-reminder''
                 then stl
                 else if plugin_name = str ''builtin_commands''
                         \<and> \<not> truthy (getattr (show_builtin_cmds cfg) (PyBool True))
                 then stl
                 else if plugin_name = [] \<or> falsy plugin_module_path
                         \<or> \<not> isinstance_Star plugin_instance
                 then (fst stl,
                       snd stl @ [Warning_invalid_metadata (Some plugin_name) plugin_module_path])
                 else (foldl (handler_step cfg displayname plugin_module_path) (fst stl) registry,
                       snd stl)))"

text \<open>\<open>get_all_commands\<close>: the catalog returned and the log written.\<close>

definition get_all_commands :: "config \<Rightarrow> host \<Rightarrow> catalog \<times> log_record list" where
  "get_all_commands cfg h =
     (case get_all_stars h of
        Inl e \<Rightarrow> ([], [Error_fetch_failed e])
      | Inr stars \<Rightarrow>
          (let all_stars_metadata = filter activated stars;
               logs = [Debug_found_activated (length all_stars_metadata)]
           in if all_stars_metadata = [] then ([], logs @ [Warning_no_plugins])
              else
                (let display_name_map = get_plugin_display_name_map cfg;
                     stl = foldl (star_step cfg display_name_map (star_handlers_registry h))
                             (([], \<lambda>k. {}), logs) all_stars_metadata
                 in (fst (fst stl), snd stl))))"

subsection \<open>What the loops compute\<close>

text \<open>
  The tuple \<open>dedupe_key\<close> of an entry, and the end of a round of the handler loop: the
  entry is dropped when its key was seen for the group, and appended and recorded otherwise.
\<close>

definition dedupe_key_of :: "CommandEntry \<Rightarrow> dedupe_key" where
  "dedupe_key_of e = (command e, description e, permission e)"

definition emit :: "loop_state \<Rightarrow> pystr \<times> CommandEntry \<Rightarrow> loop_state" where
  "emit st p =
     (if dedupe_key_of (snd p) \<in> snd st (fst p) then st
      else (dict_append (fst st) (fst p) (snd p),
            (snd st)(fst p := insert (dedupe_key_of (snd p)) (snd st (fst p)))))"

text \<open>
  The entry that an element of the registry qualifies for under a plugin with the given
  module path, before the test for duplicates: the tests of the handler loop, in its order.
\<close>

definition handler_entry ::
  "config \<Rightarrow> pystr option \<Rightarrow> registry_item \<Rightarrow> CommandEntry option" where
  "handler_entry cfg plugin_module_path item =
     (case item of
        NotHandler \<Rightarrow> None
      | Handler handler \<Rightarrow>
          if Some (handler_module_path handler) \<noteq> plugin_module_path then None
          else
            (case find_command_name (event_filters handler) of
               None \<Rightarrow> None
             | Some command_name \<Rightarrow>
                 if command_name = [] then None
                 else if \<not> should_include_command cfg (get_permission_level handler) then None
                 else Some \<lparr>command = command_name,
                            description = strip (or_empty (desc handler)),
                            permission = get_permission_level handler\<rparr>))"

text \<open>
  The display name and the module path of a plugin that passes the three tests of the plugin
  loop (the excluded names, the builtin commands, the validity of the metadata).
\<close>

definition listed_plugin ::
  "config \<Rightarrow> (pystr \<rightharpoonup> pystr) \<Rightarrow> StarMetadata \<Rightarrow> (pystr \<times> pystr option) option" where
  "listed_plugin cfg display_name_map star =
     (case getattr (name star) (Some unknown_plugin) of
        None \<Rightarrow> None
      | Some plugin_name \<Rightarrow>
          if plugin_name = str ''astrbot''
             \<or> plugin_name = str ''astrbot_plugin_help''
             \<or> plugin_name = str ''astrbot-reminder''
          then None
          else if plugin_name = str ''builtin_commands''
                  \<and> \<not> truthy (getattr (show_builtin_cmds cfg) (PyBool True))
          then None
          else if plugin_name = [] \<or> falsy (getattr (module_path star) None)
                  \<or> \<not> isinstance_Star (getattr (star_cls star) None)
          then None
          else Some (plugin_displayname display_name_map
                       (strip (or_empty (getattr (display_name star) (Some [])))) plugin_name,
                     getattr (module_path star) None))"

text \<open>
  The pairs of a display name and an entry that the handlers of the listed plugins qualify
  for, in the order of the scan: plugin by plugin, and the registry in its order for each.
\<close>

definition produced_by ::
  "config \<Rightarrow> (pystr \<rightharpoonup> pystr) \<Rightarrow> registry_item list \<Rightarrow> StarMetadata \<Rightarrow>
     (pystr \<times> CommandEntry) list" where
  "produced_by cfg display_name_map registry star =
     (case listed_plugin cfg display_name_map star of
        None \<Rightarrow> []
      | Some (displayname, plugin_module_path) \<Rightarrow>
          map (Pair displayname)
            (List.map_filter (handler_entry cfg plugin_module_path) registry))"

definition produced :: "config \<Rightarrow> host \<Rightarrow> (pystr \<times> CommandEntry) list" where
  "produced cfg h =
     (case get_all_stars h of
        Inl e \<Rightarrow> []
      | Inr stars \<Rightarrow>
          concat (map (produced_by cfg (get_plugin_display_name_map cfg)
                         (star_handlers_registry h))
                    (filter activated stars)))"

text \<open>The entries produced for one display name, in the order of the scan.\<close>

definition produced_for :: "config \<Rightarrow> host \<Rightarrow> pystr \<Rightarrow> CommandEntry list" where
  "produced_for cfg h displayname =
     map snd (filter (\<lambda>p. fst p = displayname) (produced cfg h))"

text \<open>
  Dropping duplicates, the first occurrence winning: \<open>unseen seen xs\<close> keeps an element
  of \<open>xs\<close> when it is neither in \<open>seen\<close> nor earlier in \<open>xs\<close>.
\<close>

fun unseen :: "'a list \<Rightarrow> 'a list \<Rightarrow> 'a list" where
  "unseen seen [] = []"
| "unseen seen (x # xs) =
     (if x \<in> set seen then unseen seen xs else x # unseen (seen @ [x]) xs)"

definition first_occurrences :: "'a list \<Rightarrow> 'a list" where
  "first_occurrences xs = unseen [] xs"

text \<open>
  The two dictionaries of the loops agree when the keys recorded for a group are those of
  the entries of the group.
\<close>

definition keys_agree :: "loop_state \<Rightarrow> bool" where
  "keys_agree st = (\<forall>k. snd st k = dedupe_key_of ` set (group_of (fst st) k))"

text \<open>All entries of a catalog.\<close>

definition all_entries :: "('k \<times> 'v list) list \<Rightarrow> 'v set" where
  "all_entries d = (\<Union>p \<in> set d. set (snd p))"

subsection \<open>The display-name map as the specification words it\<close>

text \<open>
  An entry counts when it is a string that contains the separator and whose key (before the
  first separator) and value (after it) are not empty once trimmed; of the entries for one
  key the last one wins. A value that is not a list gives the empty map.
\<close>

definition spec_entry :: "pyval \<Rightarrow> (pystr \<times> pystr) option" where
  "spec_entry item =
     (case item of
        PyStr s \<Rightarrow>
          if colon \<in> set s
          then (let k = strip (takeWhile (\<lambda>c. c \<noteq> colon) s);
                    v = strip (tl (dropWhile (\<lambda>c. c \<noteq> colon) s))
                in if k \<noteq> [] \<and> v \<noteq> [] then Some (k, v) else None)
          else None
      | _ \<Rightarrow> None)"

definition spec_display_name_map :: "pyval attr \<Rightarrow> (pystr \<rightharpoonup> pystr)" where
  "spec_display_name_map configured =
     (case configured of
        Present (PyList items) \<Rightarrow> map_of (rev (List.map_filter spec_entry items))
      | _ \<Rightarrow> Map.empty)"

subsection \<open>The configuration object of the host\<close>

text \<open>
  The \<open>config\<close> that the plugin is given is the host's \<open>AstrBotConfig\<close> (main.py, lines 8
  and 22), a \<open>dict\<close> whose attribute read returns the value stored under the key, and
  \<open>None\<close> when the key is missing. Reading an attribute of it never fails, so the default
  of \<open>getattr\<close> is never taken: every option is present, a missing one as \<open>None\<close>.
\<close>

definition AstrBotConfig :: "(string \<rightharpoonup> pyval) \<Rightarrow> config" where
  "AstrBotConfig d =
     \<lparr>show_all_cmds = Present (case d ''show_all_cmds'' of None \<Rightarrow> PyNone | Some v \<Rightarrow> v),
      show_builtin_cmds =
        Present (case d ''show_builtin_cmds'' of None \<Rightarrow> PyNone | Some v \<Rightarrow> v),
      plugin_display_names =
        Present (case d ''plugin_display_names'' of None \<Rightarrow> PyNone | Some v \<Rightarrow> v)\<rparr>"

subsection \<open>The descriptors as Python objects\<close>
















subsection \<open>Example inputs\<close>

text \<open>
  A configuration with no option set, a plugin \<open>weather\<close> with a command for everyone
  (twice, the second time in a command group) and one for administrators, the core plugin
  \<open>astrbot\<close> with a command for administrators, and the plugin \<open>builtin_commands\<close>.
\<close>

definition no_options :: config where
  "no_options = \<lparr>show_all_cmds = Absent, show_builtin_cmds = Absent,
                  plugin_display_names = Absent\<rparr>"

definition plugin :: "string \<Rightarrow> string \<Rightarrow> StarMetadata" where
  "plugin n m = \<lparr>name = Present (Some (str n)), display_name = Present None,
                  module_path = Present (Some (str m)),
                  star_cls = Present (Some StarInstance), activated = True\<rparr>"

definition today_handler :: StarHandlerMetadata where
  "today_handler = \<lparr>handler_module_path = str ''w.main'', desc = Some (str '' show today ''),
                      event_filters = [OtherFilter, CommandFilter (str ''today'')]\<rparr>"

definition today_group_handler :: StarHandlerMetadata where
  "today_group_handler =
     \<lparr>handler_module_path = str ''w.main'', desc = Some (str ''show today''),
      event_filters = [CommandGroupFilter (str ''today''), CommandFilter (str ''other'')]\<rparr>"

definition reset_handler :: StarHandlerMetadata where
  "reset_handler = \<lparr>handler_module_path = str ''w.main'', desc = None,
                      event_filters = [PermissionTypeFilter ADMIN, CommandFilter (str ''reset'')]\<rparr>"

definition op_handler :: StarHandlerMetadata where
  "op_handler = \<lparr>handler_module_path = str ''core'', desc = Some (str ''op''),
                   event_filters = [CommandFilter (str ''op''), PermissionTypeFilter ADMIN]\<rparr>"

definition anonymous_handler :: StarHandlerMetadata where
  "anonymous_handler =
     \<lparr>handler_module_path = str ''w.main'', desc = Some (str ''hidden''),
      event_filters = [OtherFilter, CommandGroupFilter [], CommandFilter (str ''late'')]\<rparr>"

definition plugs_handler :: StarHandlerMetadata where
  "plugs_handler = \<lparr>handler_module_path = str ''builtin'', desc = Some (str ''plugins''),
                      event_filters = [CommandFilter (str ''plugin'')]\<rparr>"

definition registry_example :: "registry_item list" where
  "registry_example =
     [Handler today_handler, NotHandler, Handler reset_handler, Handler op_handler,
      Handler today_group_handler, Handler plugs_handler]"

definition host_of :: "StarMetadata list \<Rightarrow> host" where
  "host_of stars = \<lparr>get_all_stars = Inr stars, star_handlers_registry = registry_example\<rparr>"

definition today_entry :: CommandEntry where
  "today_entry = \<lparr>command = str ''today'', description = str ''show today'',
                    permission = str ''everyone''\<rparr>"

definition reset_entry :: CommandEntry where
  "reset_entry = \<lparr>command = str ''reset'', description = [], permission = str ''admin''\<rparr>"

definition plugs_entry :: CommandEntry where
  "plugs_entry = \<lparr>command = str ''plugin'', description = str ''plugins'',
                    permission = str ''everyone''\<rparr>"

section \<open>Properties\<close>

subsection \<open>Trimming and the display-name map\<close>

lemma colon_not_space: "\<not> isspace colon"
  by (simp add: isspace_def colon_def)

lemma strip_spaces_left: "\<forall>c\<in>set a. isspace c \<Longrightarrow> strip (a @ x) = strip x"
  by (simp add: strip_def lstrip_def dropWhile_append2)

lemma strip_spaces_right:
  assumes "\<forall>c\<in>set b. isspace c"
  shows "strip (y @ b) = strip y"
proof (cases "\<forall>c\<in>set y. isspace c")
  case True
  have e1: "dropWhile isspace (y @ b) = []" using assms True by auto
  have e2: "dropWhile isspace y = []" using True by auto
  show ?thesis unfolding strip_def lstrip_def rstrip_def e1 e2 ..
next
  case False
  then have e1: "dropWhile isspace (y @ b) = dropWhile isspace y @ b"
    by (auto simp: dropWhile_append1)
  have e2: "dropWhile isspace (rev b @ z) = dropWhile isspace z" for z
    using assms by (intro dropWhile_append2) auto
  show ?thesis unfolding strip_def lstrip_def rstrip_def e1 rev_append e2 ..
qed

lemma strip_decompose:
  "\<exists>a b. s = a @ strip s @ b \<and> (\<forall>c\<in>set a. isspace c) \<and> (\<forall>c\<in>set b. isspace c)"
proof -
  let ?l = "dropWhile isspace s"
  have 1: "s = takeWhile isspace s @ ?l" by simp
  have 2: "?l = strip s @ rev (takeWhile isspace (rev ?l))"
    unfolding strip_def rstrip_def lstrip_def
    by (metis rev_append rev_rev_ident takeWhile_dropWhile_id)
  have 3: "\<forall>c\<in>set (takeWhile isspace s). isspace c" by (auto dest: set_takeWhileD)
  have 4: "\<forall>c\<in>set (rev (takeWhile isspace (rev ?l))). isspace c" by (auto dest: set_takeWhileD)
  from 1 2 3 4 show ?thesis by metis
qed

lemma colon_in_strip: "colon \<in> set (strip s) \<longleftrightarrow> colon \<in> set s"
proof -
  obtain a b where s: "s = a @ strip s @ b" and a: "\<forall>c\<in>set a. isspace c" and b: "\<forall>c\<in>set b. isspace c"
    using strip_decompose by blast
  have "colon \<notin> set a" "colon \<notin> set b" using a b colon_not_space by auto
  then show ?thesis using s by (metis Un_iff set_append)
qed

lemma key_of_strip:
  assumes "colon \<in> set s"
  shows "strip (takeWhile (\<lambda>c. c \<noteq> colon) (strip s)) = strip (takeWhile (\<lambda>c. c \<noteq> colon) s)"
proof -
  obtain a b where s: "s = a @ strip s @ b" and a: "\<forall>c\<in>set a. isspace c" and b: "\<forall>c\<in>set b. isspace c"
    using strip_decompose by blast
  have m: "colon \<in> set (strip s)" using assms colon_in_strip by simp
  have na: "\<forall>c\<in>set a. c \<noteq> colon" using a colon_not_space by auto
  have "takeWhile (\<lambda>c. c \<noteq> colon) (a @ strip s @ b) = a @ takeWhile (\<lambda>c. c \<noteq> colon) (strip s)"
    using na m by (simp add: takeWhile_append2 takeWhile_append1)
  then show ?thesis using s a strip_spaces_left by metis
qed

lemma value_of_strip:
  assumes "colon \<in> set s"
  shows "strip (tl (dropWhile (\<lambda>c. c \<noteq> colon) (strip s))) = strip (tl (dropWhile (\<lambda>c. c \<noteq> colon) s))"
proof -
  obtain a b where s: "s = a @ strip s @ b" and a: "\<forall>c\<in>set a. isspace c" and b: "\<forall>c\<in>set b. isspace c"
    using strip_decompose by blast
  have m: "colon \<in> set (strip s)" using assms colon_in_strip by simp
  have na: "\<forall>c\<in>set a. c \<noteq> colon" using a colon_not_space by auto
  have ne: "dropWhile (\<lambda>c. c \<noteq> colon) (strip s) \<noteq> []" using m by auto
  have "dropWhile (\<lambda>c. c \<noteq> colon) (a @ strip s @ b) = dropWhile (\<lambda>c. c \<noteq> colon) (strip s) @ b"
    using na m by (simp add: dropWhile_append2 dropWhile_append1)
  then have "tl (dropWhile (\<lambda>c. c \<noteq> colon) s) = tl (dropWhile (\<lambda>c. c \<noteq> colon) (strip s)) @ b"
    using s ne by (metis tl_append2)
  then show ?thesis using b strip_spaces_right by metis
qed

lemma display_name_step_spec:
  "display_name_step m item = (case spec_entry item of None \<Rightarrow> m | Some (k, v) \<Rightarrow> m(k \<mapsto> v))"
proof (cases item)
  case (PyStr s)
  show ?thesis
  proof (cases "colon \<in> set s")
    case True
    then have "strip s \<noteq> []" using colon_in_strip [of s] by auto
    with True PyStr show ?thesis
      by (simp add: display_name_step_def spec_entry_def split_colon_def Let_def colon_in_strip
          key_of_strip value_of_strip)
  next
    case False
    with PyStr show ?thesis
      by (simp add: display_name_step_def spec_entry_def colon_in_strip)
  qed
qed (simp_all add: display_name_step_def spec_entry_def)

lemma foldl_display_name_step:
  "foldl display_name_step m items = m ++ map_of (rev (List.map_filter spec_entry items))"
proof (induction items arbitrary: m)
  case Nil
  show ?case by (simp add: map_filter_simps)
next
  case (Cons item items)
  show ?case
  proof (cases "spec_entry item")
    case None
    then show ?thesis using Cons.IH [of m]
      by (simp add: display_name_step_spec map_filter_simps)
  next
    case (Some p)
    obtain k v where p: "p = (k, v)" by (cases p)
    have step: "display_name_step m item = m(k \<mapsto> v)"
      using Some p by (simp add: display_name_step_spec)
    have "foldl display_name_step m (item # items) =
          foldl display_name_step (m(k \<mapsto> v)) items"
      by (simp only: foldl_Cons step)
    also have "\<dots> = m(k \<mapsto> v) ++ map_of (rev (List.map_filter spec_entry items))"
      by (rule Cons.IH)
    also have "\<dots> = m ++ map_of (rev (List.map_filter spec_entry (item # items)))"
      using Some p
      by (auto simp: fun_eq_iff map_add_def map_filter_simps split: option.splits)
    finally show ?thesis .
  qed
qed

lemma get_plugin_display_name_map_spec:
  "get_plugin_display_name_map cfg = spec_display_name_map (plugin_display_names cfg)"
proof (cases "plugin_display_names cfg")
  case Absent
  then show ?thesis
    by (simp add: get_plugin_display_name_map_def spec_display_name_map_def)
next
  case (Present v)
  then show ?thesis
    by (cases v)
       (auto simp: get_plugin_display_name_map_def spec_display_name_map_def
          foldl_display_name_step map_filter_simps)
qed

text \<open>
  Claim C4. \<open>_get_plugin_display_name_map\<close> returns the map that the specification
  describes: the configured list is scanned in order, only the entries that are strings
  with a \<open>":"\<close> whose trimmed key and trimmed value are not empty count, a later entry
  for a key overwrites an earlier one, every other entry is skipped, and a configured value
  that is not a list (or is absent) gives the empty map. The code trims the whole entry
  before it splits it, the specification splits the entry itself; the results agree.
\<close>

theorem display_name_map_refines_spec:
  "get_plugin_display_name_map cfg = spec_display_name_map (plugin_display_names cfg)"
  by (rule get_plugin_display_name_map_spec)

theorem display_name_map_refines_spec_witness:
  "get_plugin_display_name_map
     \<lparr>show_all_cmds = Absent, show_builtin_cmds = Absent,
      plugin_display_names = Present (PyList [PyStr (str ''foo:Foo Tools''), PyOther True,
        PyStr (str ''nothing''), PyStr (str '' foo : Bar  '')])\<rparr> (str ''foo'')
   = Some (str ''Bar'')"
  using display_name_map_refines_spec
    [of "\<lparr>show_all_cmds = Absent, show_builtin_cmds = Absent,
      plugin_display_names = Present (PyList [PyStr (str ''foo:Foo Tools''), PyOther True,
        PyStr (str ''nothing''), PyStr (str '' foo : Bar  '')])\<rparr>"]
  by (simp add: spec_display_name_map_def spec_entry_def map_filter_simps str_def strip_def
      lstrip_def rstrip_def isspace_def colon_def)

subsection \<open>The permission level of a handler\<close>

lemma permission_of_filters_skip:
  "\<forall>f\<in>set pre. \<forall>t. f \<noteq> PermissionTypeFilter t \<Longrightarrow>
     permission_of_filters (pre @ fs) = permission_of_filters fs"
proof (induction pre)
  case Nil
  show ?case by simp
next
  case (Cons f pre)
  then show ?case by (cases f) simp_all
qed

text \<open>
  Claim C5. \<open>_get_permission_level\<close> is decided by the first \<open>PermissionTypeFilter\<close> of
  the filter sequence: \<open>"admin"\<close> when its type is \<open>ADMIN\<close> and \<open>"member"\<close> otherwise,
  whatever filters follow it; it is \<open>"everyone"\<close> when the sequence has no such filter.
\<close>

theorem get_permission_level_first_filter:
  "(event_filters handler = pre @ PermissionTypeFilter t # post
      \<and> (\<forall>f\<in>set pre. \<forall>t'. f \<noteq> PermissionTypeFilter t')
    \<longrightarrow> get_permission_level handler = (if t = ADMIN then str ''admin'' else str ''member''))
   \<and> ((\<forall>f\<in>set (event_filters handler). \<forall>t'. f \<noteq> PermissionTypeFilter t')
    \<longrightarrow> get_permission_level handler = str ''everyone'')"
proof (intro conjI impI)
  assume "event_filters handler = pre @ PermissionTypeFilter t # post
            \<and> (\<forall>f\<in>set pre. \<forall>t'. f \<noteq> PermissionTypeFilter t')"
  then show "get_permission_level handler = (if t = ADMIN then str ''admin'' else str ''member'')"
    by (simp add: get_permission_level_def permission_of_filters_skip)
next
  assume "\<forall>f\<in>set (event_filters handler). \<forall>t'. f \<noteq> PermissionTypeFilter t'"
  then have "permission_of_filters (event_filters handler @ []) = permission_of_filters []"
    by (rule permission_of_filters_skip)
  then show "get_permission_level handler = str ''everyone''"
    by (simp add: get_permission_level_def)
qed

theorem get_permission_level_first_filter_witness:
  "get_permission_level
     \<lparr>handler_module_path = str ''m'', desc = None,
      event_filters = [CommandFilter (str ''op''), PermissionTypeFilter ADMIN,
                       PermissionTypeFilter MEMBER]\<rparr> = str ''admin''
   \<and> get_permission_level
     \<lparr>handler_module_path = str ''m'', desc = None,
      event_filters = [OtherFilter, PermissionTypeFilter MEMBER,
                       PermissionTypeFilter ADMIN]\<rparr> = str ''member''
   \<and> get_permission_level
     \<lparr>handler_module_path = str ''m'', desc = None,
      event_filters = [CommandFilter (str ''op''), OtherFilter]\<rparr> = str ''everyone''"
  using get_permission_level_first_filter
    [of "\<lparr>handler_module_path = str ''m'', desc = None,
      event_filters = [CommandFilter (str ''op''), PermissionTypeFilter ADMIN,
                       PermissionTypeFilter MEMBER]\<rparr>"
        "[CommandFilter (str ''op'')]" ADMIN "[PermissionTypeFilter MEMBER]"]
    get_permission_level_first_filter
    [of "\<lparr>handler_module_path = str ''m'', desc = None,
      event_filters = [OtherFilter, PermissionTypeFilter MEMBER,
                       PermissionTypeFilter ADMIN]\<rparr>"
        "[OtherFilter]" MEMBER "[PermissionTypeFilter ADMIN]"]
    get_permission_level_first_filter
    [of "\<lparr>handler_module_path = str ''m'', desc = None,
      event_filters = [CommandFilter (str ''op''), OtherFilter]\<rparr>" "[]" ADMIN "[]"]
  by simp

subsection \<open>The loops of \<open>get_all_commands\<close>\<close>

text \<open>
  The two loops append, in the order of the scan, the entries that the handlers of the listed
  plugins qualify for, each unless its key was already recorded for its group.
\<close>

lemma handler_step_emit:
  "handler_step cfg dn mp st item =
     (case handler_entry cfg mp item of None \<Rightarrow> st | Some e \<Rightarrow> emit st (dn, e))"
  by (cases item)
     (auto simp: handler_step_def handler_entry_def emit_def dedupe_key_of_def Let_def
        split: option.splits)

lemma foldl_handler_step:
  "foldl (handler_step cfg dn mp) st registry =
     foldl emit st (map (Pair dn) (List.map_filter (handler_entry cfg mp) registry))"
proof (induction registry arbitrary: st)
  case Nil
  show ?case by (simp add: map_filter_simps)
next
  case (Cons item registry)
  show ?case
  proof (cases "handler_entry cfg mp item")
    case None
    then have s: "handler_step cfg dn mp st item = st"
      by (simp add: handler_step_emit)
    show ?thesis using None Cons.IH [of st] by (simp add: s)
  next
    case (Some e)
    then have s: "handler_step cfg dn mp st item = emit st (dn, e)"
      by (simp add: handler_step_emit)
    show ?thesis using Some Cons.IH [of "emit st (dn, e)"] by (simp add: s)
  qed
qed

lemma star_step_fst:
  "fst (star_step cfg dmap registry stl star) =
     foldl emit (fst stl) (produced_by cfg dmap registry star)"
  by (simp add: star_step_def produced_by_def listed_plugin_def Let_def foldl_handler_step
      split: option.splits)

lemma foldl_star_step:
  "fst (foldl (star_step cfg dmap registry) stl stars) =
     foldl emit (fst stl) (concat (map (produced_by cfg dmap registry) stars))"
proof (induction stars arbitrary: stl)
  case Nil
  show ?case by simp
next
  case (Cons star stars)
  show ?case using Cons.IH [of "star_step cfg dmap registry stl star"] by (simp add: star_step_fst)
qed

lemma catalog_produced:
  "fst (get_all_commands cfg h) = fst (foldl emit ([], \<lambda>k. {}) (produced cfg h))"
  by (cases "get_all_stars h")
     (simp_all add: get_all_commands_def produced_def Let_def foldl_star_step)

lemma dedupe_key_of_inj: "dedupe_key_of e = dedupe_key_of e' \<longleftrightarrow> e = e'"
  by (cases e, cases e') (simp add: dedupe_key_of_def)

lemma group_dict_append:
  "group_of (dict_append d k v) k' = (if k' = k then group_of d k @ [v] else group_of d k')"
  by (induction d k v rule: dict_append.induct) auto

lemma all_entries_dict_append: "all_entries (dict_append d k v) = insert v (all_entries d)"
  by (induction d k v rule: dict_append.induct) (auto simp: all_entries_def)

lemma keys_dict_append: "fst ` set (dict_append d k v) = insert k (fst ` set d)"
  by (induction d k v rule: dict_append.induct) auto

lemma distinct_dict_append:
  "distinct (map fst d) \<Longrightarrow> distinct (map fst (dict_append d k v))"
proof (induction d k v rule: dict_append.induct)
  case (1 k v)
  show ?case by simp
next
  case (2 k' vs d k v)
  then show ?case using keys_dict_append [of d k v] by auto
qed

lemma nonempty_dict_append:
  "[] \<notin> snd ` set d \<Longrightarrow> [] \<notin> snd ` set (dict_append d k v)"
  by (induction d k v rule: dict_append.induct) auto

lemma map_of_group:
  "distinct (map fst d) \<Longrightarrow> [] \<notin> snd ` set d \<Longrightarrow>
     map_of d k = (if group_of d k = [] then None else Some (group_of d k))"
proof (induction d)
  case Nil
  show ?case by simp
next
  case (Cons p d)
  then show ?case by (cases p) (auto simp: image_iff)
qed

lemma keys_agree_emit: "keys_agree st \<Longrightarrow> keys_agree (emit st p)"
  by (auto simp: keys_agree_def emit_def group_dict_append)

lemma group_emit:
  "keys_agree st \<Longrightarrow>
     group_of (fst (emit st p)) k =
       (if k = fst p \<and> snd p \<notin> set (group_of (fst st) k)
        then group_of (fst st) k @ [snd p] else group_of (fst st) k)"
  by (auto simp: keys_agree_def emit_def group_dict_append dedupe_key_of_inj)

lemma group_foldl_emit:
  "keys_agree st \<Longrightarrow>
     group_of (fst (foldl emit st ps)) k =
       group_of (fst st) k @ unseen (group_of (fst st) k) (map snd (filter (\<lambda>p. fst p = k) ps))"
proof (induction ps arbitrary: st)
  case Nil
  show ?case by simp
next
  case (Cons p ps)
  have "group_of (fst (foldl emit (emit st p) ps)) k =
          group_of (fst (emit st p)) k
            @ unseen (group_of (fst (emit st p)) k) (map snd (filter (\<lambda>p. fst p = k) ps))"
    using Cons.prems by (intro Cons.IH keys_agree_emit)
  then show ?case using Cons.prems by (simp add: group_emit)
qed

lemma keys_agree_init: "keys_agree ([], \<lambda>k. {})"
  by (simp add: keys_agree_def)

lemma catalog_group:
  "group_of (fst (get_all_commands cfg h)) k = first_occurrences (produced_for cfg h k)"
  by (simp add: catalog_produced group_foldl_emit keys_agree_init first_occurrences_def
      produced_for_def)

lemma all_entries_foldl_emit:
  "all_entries (fst (foldl emit st ps)) \<subseteq> all_entries (fst st) \<union> snd ` set ps"
proof (induction ps arbitrary: st)
  case Nil
  show ?case by simp
next
  case (Cons p ps)
  have "all_entries (fst (emit st p)) \<subseteq> insert (snd p) (all_entries (fst st))"
    by (auto simp: emit_def all_entries_dict_append)
  then show ?case using Cons.IH [of "emit st p"] by auto
qed

lemma wf_foldl_emit:
  "distinct (map fst (fst st)) \<Longrightarrow> [] \<notin> snd ` set (fst st) \<Longrightarrow>
     distinct (map fst (fst (foldl emit st ps))) \<and> [] \<notin> snd ` set (fst (foldl emit st ps))"
proof (induction ps arbitrary: st)
  case Nil
  then show ?case by simp
next
  case (Cons p ps)
  have "distinct (map fst (fst (emit st p)))" "[] \<notin> snd ` set (fst (emit st p))"
    using Cons.prems by (simp_all add: emit_def distinct_dict_append nonempty_dict_append)
  then show ?case using Cons.IH [of "emit st p"] by simp
qed

lemma unseen_set: "set (unseen seen xs) = set xs - set seen"
  by (induction seen xs rule: unseen.induct) auto

lemma unseen_distinct: "distinct (unseen seen xs)"
  by (induction seen xs rule: unseen.induct) (auto simp: unseen_set)

lemma set_map_filter_iff:
  "y \<in> set (List.map_filter f xs) \<longleftrightarrow> (\<exists>x\<in>set xs. f x = Some y)"
  by (induction xs) (auto split: option.splits)

lemma handler_entry_included:
  "handler_entry cfg mp item = Some e \<Longrightarrow> should_include_command cfg (permission e)"
  by (cases item) (auto simp: handler_entry_def split: option.splits if_splits)

lemma produced_included:
  "p \<in> set (produced cfg h) \<Longrightarrow> should_include_command cfg (permission (snd p))"
  by (cases "get_all_stars h")
     (auto simp: produced_def produced_by_def set_map_filter_iff handler_entry_included
        split: option.splits)

subsection \<open>Evaluating the examples\<close>

lemmas eval_defs = get_all_commands_def star_step_def handler_step_def plugin_displayname_def
  py_or_def dict_get_def get_permission_level_def should_include_command_def Let_def
  unknown_plugin_def get_plugin_display_name_map_def display_name_step_def str_def strip_def
  lstrip_def rstrip_def isspace_def colon_def split_colon_def
  no_options_def plugin_def today_handler_def today_group_handler_def reset_handler_def
  op_handler_def anonymous_handler_def plugs_handler_def registry_example_def host_of_def
  today_entry_def reset_entry_def plugs_entry_def

lemma catalog_weather:
  "fst (get_all_commands no_options (host_of [plugin ''weather'' ''w.main''])) =
     [(str ''weather'', [today_entry])]"
  by (simp add: eval_defs)

lemma catalog_weather_all:
  "fst (get_all_commands (no_options\<lparr>show_all_cmds := Present (PyBool True)\<rparr>)
         (host_of [plugin ''weather'' ''w.main''])) =
     [(str ''weather'', [today_entry, reset_entry])]"
  by (simp add: eval_defs)


subsection \<open>Administrator commands are hidden by default\<close>

text \<open>
  Claim C1. When the option \<open>show_all_cmds\<close> is absent or false, no entry of any group of
  the catalog returned by \<open>get_all_commands\<close> has the permission \<open>"admin"\<close>, whatever
  the plugins and the handlers of the host are.
\<close>

theorem no_admin_entry_by_default:
  assumes "\<not> truthy (getattr (show_all_cmds cfg) (PyBool False))"
    and "(displayname, entries) \<in> set (fst (get_all_commands cfg h))"
    and "e \<in> set entries"
  shows "permission e \<noteq> str ''admin''"
proof -
  have "e \<in> all_entries (fst (get_all_commands cfg h))"
    using assms(2,3) by (force simp: all_entries_def)
  then have "e \<in> snd ` set (produced cfg h)"
    using all_entries_foldl_emit [of "([], \<lambda>k. {})" "produced cfg h"]
    by (auto simp: catalog_produced all_entries_def)
  then have "should_include_command cfg (permission e)"
    using produced_included by auto
  then show ?thesis using assms(1) by (simp add: should_include_command_def)
qed

theorem no_admin_entry_by_default_witness:
  "\<not> truthy (getattr (show_all_cmds no_options) (PyBool False))
   \<and> (str ''weather'', [today_entry])
       \<in> set (fst (get_all_commands no_options (host_of [plugin ''weather'' ''w.main''])))
   \<and> today_entry \<in> set [today_entry]
   \<and> permission today_entry \<noteq> str ''admin''"
proof -
  have 1: "\<not> truthy (getattr (show_all_cmds no_options) (PyBool False))"
    by (simp add: no_options_def)
  have 2: "(str ''weather'', [today_entry])
             \<in> set (fst (get_all_commands no_options (host_of [plugin ''weather'' ''w.main''])))"
    by (simp add: catalog_weather)
  have 3: "today_entry \<in> set [today_entry]" by simp
  show ?thesis using 1 2 3 no_admin_entry_by_default [OF 1 2 3] by simp
qed

subsection \<open>The excluded plugins\<close>

lemma concat_map_filter_skip:
  "\<forall>x\<in>set xs. \<not> P x \<longrightarrow> f x = [] \<Longrightarrow> concat (map f (filter P xs)) = concat (map f xs)"
  by (induction xs) auto

lemma produced_by_excluded:
  "name star \<in> {Present (Some (str ''astrbot'')), Present (Some (str ''astrbot_plugin_help'')),
                  Present (Some (str ''astrbot-reminder''))} \<Longrightarrow>
     produced_by cfg dmap registry star = []"
  by (auto simp: produced_by_def listed_plugin_def)

text \<open>
  Claim C2. A plugin whose internal name is \<open>"astrbot"\<close>, \<open>"astrbot_plugin_help"\<close> or
  \<open>"astrbot-reminder"\<close> contributes nothing: for every configuration, registry of handlers
  and list of plugins, the catalog is the one obtained with these plugins removed from the
  list.
\<close>

theorem excluded_plugins_contribute_nothing:
  "fst (get_all_commands cfg
         (h\<lparr>get_all_stars := Inr (filter (\<lambda>star. name star \<notin>
               {Present (Some (str ''astrbot'')), Present (Some (str ''astrbot_plugin_help'')),
                Present (Some (str ''astrbot-reminder''))}) stars)\<rparr>)) =
   fst (get_all_commands cfg (h\<lparr>get_all_stars := Inr stars\<rparr>))"
proof -
  let ?keep = "\<lambda>star. name star \<notin>
     {Present (Some (str ''astrbot'')), Present (Some (str ''astrbot_plugin_help'')),
      Present (Some (str ''astrbot-reminder''))}"
  let ?f = "produced_by cfg (get_plugin_display_name_map cfg) (star_handlers_registry h)"
  have "filter activated (filter ?keep stars) = filter ?keep (filter activated stars)"
    by (simp add: conj_commute)
  moreover have "concat (map ?f (filter ?keep (filter activated stars))) =
          concat (map ?f (filter activated stars))"
    by (rule concat_map_filter_skip) (simp add: produced_by_excluded)
  ultimately have "produced cfg (h\<lparr>get_all_stars := Inr (filter ?keep stars)\<rparr>) =
        produced cfg (h\<lparr>get_all_stars := Inr stars\<rparr>)"
    by (simp add: produced_def)
  then show ?thesis by (simp only: catalog_produced)
qed

theorem excluded_plugins_contribute_nothing_witness:
  "fst (get_all_commands (no_options\<lparr>show_all_cmds := Present (PyBool True)\<rparr>)
         (host_of [plugin ''astrbot'' ''core'', plugin ''weather'' ''w.main''])) =
     [(str ''weather'', [today_entry, reset_entry])]"
proof -
  have "filter (\<lambda>star. name star \<notin>
               {Present (Some (str ''astrbot'')), Present (Some (str ''astrbot_plugin_help'')),
                Present (Some (str ''astrbot-reminder''))})
          [plugin ''astrbot'' ''core'', plugin ''weather'' ''w.main'']
        = [plugin ''weather'' ''w.main'']"
    by (simp add: plugin_def str_def)
  then show ?thesis
    using excluded_plugins_contribute_nothing
      [where cfg = "no_options\<lparr>show_all_cmds := Present (PyBool True)\<rparr>"
         and h = "host_of []"
         and stars = "[plugin ''astrbot'' ''core'', plugin ''weather'' ''w.main'']"]
    by (simp add: host_of_def catalog_weather_all [unfolded host_of_def])
qed

subsection \<open>The builtin commands\<close>

lemma get_all_commands_cong:
  assumes "get_all_stars h = get_all_stars h'"
    and "get_plugin_display_name_map cfg = get_plugin_display_name_map cfg'"
    and "\<And>dmap. star_step cfg dmap (star_handlers_registry h) =
                  star_step cfg' dmap (star_handlers_registry h')"
  shows "get_all_commands cfg h = get_all_commands cfg' h'"
  using assms by (simp add: get_all_commands_def Let_def split: sum.splits)

lemma produced_by_builtin_hidden:
  "\<not> truthy (getattr (show_builtin_cmds cfg) (PyBool True)) \<Longrightarrow>
   name star = Present (Some (str ''builtin_commands'')) \<Longrightarrow>
     produced_by cfg dmap registry star = []"
  by (auto simp: produced_by_def listed_plugin_def)

lemma builtin_commands_hidden_when_false:
  assumes "\<not> truthy (getattr (show_builtin_cmds cfg) (PyBool True))"
  shows "fst (get_all_commands cfg
            (h\<lparr>get_all_stars := Inr (filter (\<lambda>star. name star \<noteq>
                  Present (Some (str ''builtin_commands''))) stars)\<rparr>)) =
         fst (get_all_commands cfg (h\<lparr>get_all_stars := Inr stars\<rparr>))"
proof -
  let ?keep = "\<lambda>star. name star \<noteq> Present (Some (str ''builtin_commands''))"
  let ?f = "produced_by cfg (get_plugin_display_name_map cfg) (star_handlers_registry h)"
  have "filter activated (filter ?keep stars) = filter ?keep (filter activated stars)"
    by (simp add: conj_commute)
  moreover have "concat (map ?f (filter ?keep (filter activated stars))) =
          concat (map ?f (filter activated stars))"
    by (rule concat_map_filter_skip) (simp add: produced_by_builtin_hidden [OF assms])
  ultimately have "produced cfg (h\<lparr>get_all_stars := Inr (filter ?keep stars)\<rparr>) =
        produced cfg (h\<lparr>get_all_stars := Inr stars\<rparr>)"
    by (simp add: produced_def)
  then show ?thesis by (simp only: catalog_produced)
qed

text \<open>
  Claim C9. The first half of the claim holds (\<open>builtin_commands_hidden_when_false\<close>):
  when the option \<open>show_builtin_cmds\<close> reads as a false value, the catalog is the one
  obtained with the plugin \<open>builtin_commands\<close> removed from the list. The second half
  fails on the code. The comment of the source (line 121) says that the builtin commands
  are shown by default, and \<open>getattr\<close> is given the default \<open>True\<close>; but the
  configuration object reads a missing key as \<open>None\<close>, the default is not taken, and
  \<open>not None\<close> holds: with no option set the plugin \<open>builtin_commands\<close>, which has a valid
  handler, has no group, while with the option set to true it has one.
\<close>

theorem builtin_commands_hidden_when_option_missing:
  "show_builtin_cmds (AstrBotConfig Map.empty) = Present PyNone
   \<and> fst (get_all_commands (AstrBotConfig Map.empty)
        (host_of [plugin ''builtin_commands'' ''builtin'', plugin ''weather'' ''w.main'']))
     = [(str ''weather'', [today_entry])]
   \<and> fst (get_all_commands (AstrBotConfig [''show_builtin_cmds'' \<mapsto> PyBool True])
        (host_of [plugin ''builtin_commands'' ''builtin'', plugin ''weather'' ''w.main'']))
     = [(str ''builtin_commands'', [plugs_entry]), (str ''weather'', [today_entry])]"
  by (simp add: AstrBotConfig_def eval_defs)

subsection \<open>Handlers whose first command name is empty\<close>

lemma find_command_name_skip:
  "\<forall>f\<in>set pre. (\<forall>n. f \<noteq> CommandFilter n) \<and> (\<forall>n. f \<noteq> CommandGroupFilter n) \<Longrightarrow>
     find_command_name (pre @ fs) = find_command_name fs"
proof (induction pre)
  case Nil
  show ?case by simp
next
  case (Cons f pre)
  then show ?case by (cases f) simp_all
qed

lemma star_step_registry_skip:
  assumes "\<And>dn mp st. handler_step cfg dn mp st item = st"
  shows "star_step cfg dmap (before @ item # after) = star_step cfg dmap (before @ after)"
proof -
  have 1: "foldl (handler_step cfg dn mp) st (before @ item # after) =
           foldl (handler_step cfg dn mp) st (before @ after)" for dn mp st
    using assms by simp
  show ?thesis unfolding star_step_def 1 ..
qed

text \<open>
  Claim C10. A handler whose first \<open>CommandFilter\<close> or \<open>CommandGroupFilter\<close> carries an
  empty name produces no entry, whatever filters follow it: the scan of the filters stops
  there, and \<open>get_all_commands\<close> returns what it returns with the handler removed from
  the registry.
\<close>

theorem empty_first_command_name_no_entry:
  assumes "event_filters handler = pre @ first # post"
    and "first = CommandFilter [] \<or> first = CommandGroupFilter []"
    and "\<forall>f\<in>set pre. (\<forall>n. f \<noteq> CommandFilter n) \<and> (\<forall>n. f \<noteq> CommandGroupFilter n)"
  shows "get_all_commands cfg (h\<lparr>star_handlers_registry := before @ Handler handler # after\<rparr>)
       = get_all_commands cfg (h\<lparr>star_handlers_registry := before @ after\<rparr>)"
proof -
  have "find_command_name (event_filters handler) = Some []"
    using assms by (auto simp: find_command_name_skip)
  then have "handler_step cfg dn mp st (Handler handler) = st" for dn mp st
    by (simp add: handler_step_def)
  then have "star_step cfg dmap (before @ Handler handler # after) =
             star_step cfg dmap (before @ after)" for dmap
    by (rule star_step_registry_skip)
  then show ?thesis by (intro get_all_commands_cong) simp_all
qed

theorem empty_first_command_name_no_entry_witness:
  "event_filters anonymous_handler = [OtherFilter] @ CommandGroupFilter [] # [CommandFilter (str ''late'')]
   \<and> fst (get_all_commands no_options
        \<lparr>get_all_stars = Inr [plugin ''weather'' ''w.main''],
         star_handlers_registry = [Handler today_handler] @ Handler anonymous_handler # []\<rparr>)
     = [(str ''weather'', [today_entry])]"
proof -
  have 1: "event_filters anonymous_handler =
             [OtherFilter] @ CommandGroupFilter [] # [CommandFilter (str ''late'')]"
    by (simp add: anonymous_handler_def)
  have 2: "CommandGroupFilter [] = CommandFilter [] \<or> CommandGroupFilter [] = CommandGroupFilter []"
    by simp
  have 3: "\<forall>f\<in>set [OtherFilter]. (\<forall>n. f \<noteq> CommandFilter n) \<and> (\<forall>n. f \<noteq> CommandGroupFilter n)"
    by simp
  have 4: "fst (get_all_commands no_options
        \<lparr>get_all_stars = Inr [plugin ''weather'' ''w.main''],
         star_handlers_registry = [Handler today_handler] @ []\<rparr>)
     = [(str ''weather'', [today_entry])]"
    by (simp add: eval_defs)
  show ?thesis
    using 1 4 empty_first_command_name_no_entry [OF 1 2 3,
        where cfg = no_options and h = "host_of [plugin ''weather'' ''w.main'']"
          and before = "[Handler today_handler]" and after = "[]"]
    by (simp add: host_of_def)
qed

subsection \<open>The groups of the catalog\<close>

lemma group_member:
  "e \<in> set (group_of (fst (get_all_commands cfg h)) k) \<longleftrightarrow> (k, e) \<in> set (produced cfg h)"
  by (force simp: catalog_group first_occurrences_def unseen_set produced_for_def)

lemma produced_member:
  assumes "get_all_stars h = Inr stars" "star \<in> set stars" "activated star"
    and "listed_plugin cfg (get_plugin_display_name_map cfg) star = Some (dn, mp)"
    and "item \<in> set (star_handlers_registry h)" "handler_entry cfg mp item = Some e"
  shows "(dn, e) \<in> set (produced cfg h)"
proof -
  have "(dn, e) \<in> set (produced_by cfg (get_plugin_display_name_map cfg)
                         (star_handlers_registry h) star)"
    using assms(4,5,6) by (force simp: produced_by_def set_map_filter_iff)
  then show ?thesis using assms(1,2,3) by (auto simp: produced_def)
qed

lemma remdups_snoc: "remdups (ys @ [x]) = remdups (filter (\<lambda>y. y \<noteq> x) ys) @ [x]"
  by (induction ys) auto

lemma unseen_remdups:
  "unseen seen xs = rev (remdups (rev (filter (\<lambda>x. x \<notin> set seen) xs)))"
proof (induction seen xs rule: unseen.induct)
  case (1 seen)
  show ?case by simp
next
  case (2 seen x xs)
  show ?case
  proof (cases "x \<in> set seen")
    case True
    then show ?thesis using 2 by simp
  next
    case False
    let ?F = "filter (\<lambda>y. y \<notin> set seen) xs"
    have "remdups (rev ?F @ [x]) = remdups (filter (\<lambda>y. y \<noteq> x) (rev ?F)) @ [x]"
      by (rule remdups_snoc)
    also have "filter (\<lambda>y. y \<noteq> x) (rev ?F) =
        rev (filter (\<lambda>y. y \<notin> set (seen @ [x])) xs)"
      by (simp add: rev_filter [symmetric] conj_commute)
    finally have "rev (remdups (rev (filter (\<lambda>y. y \<notin> set seen) (x # xs)))) =
        x # rev (remdups (rev (filter (\<lambda>y. y \<notin> set (seen @ [x])) xs)))"
      using False by simp
    then show ?thesis using False 2 by simp
  qed
qed

lemma first_occurrences_remdups: "first_occurrences xs = rev (remdups (rev xs))"
  by (simp add: first_occurrences_def unseen_remdups)

subsection \<open>Administrator commands with \<open>show_all_cmds\<close>\<close>

text \<open>
  Claim C3 as it is stated fails: with \<open>show_all_cmds\<close> true, the registry holds a handler
  of the excluded plugin \<open>astrbot\<close> with the command \<open>op\<close> and the permission
  \<open>"admin"\<close>, and the catalog is empty.
\<close>

theorem admin_command_of_excluded_plugin_counterexample:
  "truthy (getattr (show_all_cmds (no_options\<lparr>show_all_cmds := Present (PyBool True)\<rparr>))
            (PyBool False))
   \<and> Handler op_handler \<in> set (star_handlers_registry (host_of [plugin ''astrbot'' ''core'']))
   \<and> find_command_name (event_filters op_handler) = Some (str ''op'')
   \<and> get_permission_level op_handler = str ''admin''
   \<and> fst (get_all_commands (no_options\<lparr>show_all_cmds := Present (PyBool True)\<rparr>)
            (host_of [plugin ''astrbot'' ''core''])) = []"
  by (simp add: eval_defs)

text \<open>
  Claim C3, amended. When \<open>show_all_cmds\<close> is true, every handler of the registry with
  the permission \<open>"admin"\<close> and a non-empty command name whose module path is that of an
  activated plugin that passes the tests of the plugin loop (not an excluded name, not the
  hidden builtin commands, valid metadata) has its entry in the group of that plugin's
  display name.
\<close>

theorem admin_commands_of_listed_plugins_shown:
  assumes "truthy (getattr (show_all_cmds cfg) (PyBool False))"
    and "get_all_stars h = Inr stars" and "star \<in> set stars" and "activated star"
    and "listed_plugin cfg (get_plugin_display_name_map cfg) star
           = Some (displayname, Some (handler_module_path handler))"
    and "Handler handler \<in> set (star_handlers_registry h)"
    and "find_command_name (event_filters handler) = Some command_name"
    and "command_name \<noteq> []"
    and "get_permission_level handler = str ''admin''"
  shows "\<lparr>command = command_name, description = strip (or_empty (desc handler)),
           permission = str ''admin''\<rparr>
         \<in> set (group_of (fst (get_all_commands cfg h)) displayname)"
proof -
  have "handler_entry cfg (Some (handler_module_path handler)) (Handler handler) =
          Some \<lparr>command = command_name, description = strip (or_empty (desc handler)),
                permission = str ''admin''\<rparr>"
    using assms(1,7,8,9) by (simp add: handler_entry_def should_include_command_def)
  then show ?thesis
    using produced_member [OF assms(2,3,4,5,6)] by (simp add: group_member)
qed

lemmas listed_defs = listed_plugin_def handler_entry_def produced_def produced_by_def
  produced_for_def

theorem admin_commands_of_listed_plugins_shown_witness:
  "truthy (getattr (show_all_cmds (no_options\<lparr>show_all_cmds := Present (PyBool True)\<rparr>))
            (PyBool False))
   \<and> listed_plugin (no_options\<lparr>show_all_cmds := Present (PyBool True)\<rparr>)
         (get_plugin_display_name_map (no_options\<lparr>show_all_cmds := Present (PyBool True)\<rparr>))
         (plugin ''weather'' ''w.main'')
       = Some (str ''weather'', Some (handler_module_path reset_handler))
   \<and> find_command_name (event_filters reset_handler) = Some (str ''reset'')
   \<and> get_permission_level reset_handler = str ''admin''
   \<and> reset_entry \<in> set (group_of
         (fst (get_all_commands (no_options\<lparr>show_all_cmds := Present (PyBool True)\<rparr>)
                (host_of [plugin ''weather'' ''w.main'']))) (str ''weather''))"
proof -
  let ?cfg = "no_options\<lparr>show_all_cmds := Present (PyBool True)\<rparr>"
  have 1: "truthy (getattr (show_all_cmds ?cfg) (PyBool False))" by simp
  have 2: "get_all_stars (host_of [plugin ''weather'' ''w.main'']) = Inr [plugin ''weather'' ''w.main'']"
    by (simp add: host_of_def)
  have 3: "plugin ''weather'' ''w.main'' \<in> set [plugin ''weather'' ''w.main'']" by simp
  have 4: "activated (plugin ''weather'' ''w.main'')" by (simp add: plugin_def)
  have 5: "listed_plugin ?cfg (get_plugin_display_name_map ?cfg) (plugin ''weather'' ''w.main'')
       = Some (str ''weather'', Some (handler_module_path reset_handler))"
    by (simp add: listed_defs eval_defs)
  have 6: "Handler reset_handler \<in> set (star_handlers_registry (host_of [plugin ''weather'' ''w.main'']))"
    by (simp add: host_of_def registry_example_def)
  have 7: "find_command_name (event_filters reset_handler) = Some (str ''reset'')"
    by (simp add: reset_handler_def)
  have 8: "str ''reset'' \<noteq> []" by (simp add: str_def)
  have 9: "get_permission_level reset_handler = str ''admin''"
    by (simp add: reset_handler_def get_permission_level_def)
  have 10: "\<lparr>command = str ''reset'', description = strip (or_empty (desc reset_handler)),
           permission = str ''admin''\<rparr> = reset_entry"
    by (simp add: reset_entry_def reset_handler_def strip_def lstrip_def rstrip_def)
  show ?thesis
    using 1 5 7 9 admin_commands_of_listed_plugins_shown [OF 1 2 3 4 5 6 7 8 9]
    unfolding 10 by simp
qed

subsection \<open>Duplicates\<close>

lemma catalog_well_formed:
  "distinct (map fst (fst (get_all_commands cfg h)))
   \<and> [] \<notin> snd ` set (fst (get_all_commands cfg h))"
  using wf_foldl_emit [of "([], \<lambda>k. {})" "produced cfg h"] by (simp add: catalog_produced)

lemma first_occurrences_set: "set (first_occurrences xs) = set xs"
  by (simp add: first_occurrences_def unseen_set)

lemma first_occurrences_distinct: "distinct (first_occurrences xs)"
  by (simp add: first_occurrences_def unseen_distinct)

lemma count_list_distinct:
  "distinct xs \<Longrightarrow> count_list xs x = (if x \<in> set xs then 1 else 0)"
  by (induction xs) auto

text \<open>
  Claim C6. The group of a display name holds the entries that the qualifying handlers
  produce for it, in the order of the scan, each kept at its first occurrence only
  (\<open>first_occurrences xs\<close> is \<open>rev (remdups (rev xs))\<close>): an entry that is produced occurs
  exactly once in its group. Two entries are duplicates exactly when their tuples of
  command, trimmed description and permission are equal, that is when they are equal. The
  catalog has the group as the value of the key exactly when some entry is produced for it.
\<close>

theorem duplicates_dropped_first_wins:
  "group_of (fst (get_all_commands cfg h)) k = first_occurrences (produced_for cfg h k)
   \<and> distinct (group_of (fst (get_all_commands cfg h)) k)
   \<and> count_list (group_of (fst (get_all_commands cfg h)) k) e =
        (if e \<in> set (produced_for cfg h k) then 1 else 0)
   \<and> map_of (fst (get_all_commands cfg h)) k =
        (if produced_for cfg h k = [] then None
         else Some (first_occurrences (produced_for cfg h k)))
   \<and> (dedupe_key_of e = dedupe_key_of e' \<longleftrightarrow> e = e')"
proof -
  let ?g = "group_of (fst (get_all_commands cfg h)) k"
  have g: "?g = first_occurrences (produced_for cfg h k)" by (rule catalog_group)
  have d: "distinct ?g" by (simp add: g first_occurrences_distinct)
  have c: "count_list ?g e = (if e \<in> set (produced_for cfg h k) then 1 else 0)"
    using count_list_distinct [OF d, of e] by (simp add: g first_occurrences_set)
  have "(?g = []) = (produced_for cfg h k = [])"
    using first_occurrences_set [of "produced_for cfg h k"] unfolding g
    by (metis set_empty)
  then have m: "map_of (fst (get_all_commands cfg h)) k =
        (if produced_for cfg h k = [] then None
         else Some (first_occurrences (produced_for cfg h k)))"
    using catalog_well_formed [of cfg h] by (simp add: map_of_group g)
  show ?thesis using g d c m dedupe_key_of_inj by blast
qed

theorem duplicates_dropped_first_wins_witness:
  "produced_for (no_options\<lparr>show_all_cmds := Present (PyBool True)\<rparr>)
      (host_of [plugin ''weather'' ''w.main'']) (str ''weather'')
     = [today_entry, reset_entry, today_entry]
   \<and> group_of (fst (get_all_commands (no_options\<lparr>show_all_cmds := Present (PyBool True)\<rparr>)
        (host_of [plugin ''weather'' ''w.main'']))) (str ''weather'')
     = [today_entry, reset_entry]"
proof -
  have 1: "produced_for (no_options\<lparr>show_all_cmds := Present (PyBool True)\<rparr>)
      (host_of [plugin ''weather'' ''w.main'']) (str ''weather'')
     = [today_entry, reset_entry, today_entry]"
    by (simp add: listed_defs eval_defs)
  have 2: "first_occurrences [today_entry, reset_entry, today_entry] = [today_entry, reset_entry]"
    by (simp add: first_occurrences_def today_entry_def reset_entry_def str_def)
  show ?thesis
    using duplicates_dropped_first_wins
      [of "no_options\<lparr>show_all_cmds := Present (PyBool True)\<rparr>"
          "host_of [plugin ''weather'' ''w.main'']" "str ''weather''"]
    by (simp add: 1 2)
qed

subsection \<open>The display name of a plugin\<close>

lemma spec_entry_nonempty: "spec_entry item = Some (k, v) \<Longrightarrow> k \<noteq> [] \<and> v \<noteq> []"
  by (cases item) (auto simp: spec_entry_def Let_def split: if_splits)

lemma display_name_map_nonempty:
  assumes "get_plugin_display_name_map cfg k = Some v"
  shows "v \<noteq> []"
proof -
  have "spec_display_name_map (plugin_display_names cfg) k = Some v"
    using assms by (simp add: get_plugin_display_name_map_spec)
  then obtain items where "map_of (rev (List.map_filter spec_entry items)) k = Some v"
    by (auto simp: spec_display_name_map_def split: attr.splits pyval.splits)
  then have "(k, v) \<in> set (List.map_filter spec_entry items)"
    by (auto dest: map_of_SomeD)
  then show ?thesis by (auto simp: set_map_filter_iff dest: spec_entry_nonempty)
qed

lemma plugin_displayname_first_nonempty:
  "plugin_displayname (get_plugin_display_name_map cfg) native n =
     (if native \<noteq> [] then native
      else case get_plugin_display_name_map cfg n of Some d \<Rightarrow> d | None \<Rightarrow> n)"
  by (auto simp: plugin_displayname_def py_or_def dict_get_def
      dest: display_name_map_nonempty split: option.splits)

text \<open>
  Claim C7. The key of the group that receives the entries of a listed plugin is the first
  non-empty of: the trimmed native display name, the entry of the configured map for the
  internal name, the internal name. (The values of the configured map are never empty.)
  The witness is the example of the specification: with \<open>["foo:Foo Tools"]\<close> configured,
  the entries of the plugin \<open>foo\<close>, which has no native display name, are in the group
  \<open>"Foo Tools"\<close>.
\<close>

theorem group_key_is_display_name:
  assumes "get_all_stars h = Inr stars" and "star \<in> set stars" and "activated star"
    and "getattr (name star) (Some unknown_plugin) = Some plugin_name"
    and "listed_plugin cfg (get_plugin_display_name_map cfg) star = Some (key, mp)"
    and "item \<in> set (star_handlers_registry h)"
    and "handler_entry cfg mp item = Some e"
  shows "key =
           (if strip (or_empty (getattr (display_name star) (Some []))) \<noteq> []
            then strip (or_empty (getattr (display_name star) (Some [])))
            else case get_plugin_display_name_map cfg plugin_name of
                   Some d \<Rightarrow> d
                 | None \<Rightarrow> plugin_name)
         \<and> e \<in> set (group_of (fst (get_all_commands cfg h)) key)"
proof -
  have "key = plugin_displayname (get_plugin_display_name_map cfg)
                (strip (or_empty (getattr (display_name star) (Some [])))) plugin_name"
    using assms(4,5) by (auto simp: listed_plugin_def split: if_splits)
  then show ?thesis
    using produced_member [OF assms(1,2,3,5,6,7)]
    by (simp add: plugin_displayname_first_nonempty group_member)
qed

theorem group_key_is_display_name_witness:
  "listed_plugin
     (no_options\<lparr>plugin_display_names := Present (PyList [PyStr (str ''foo:Foo Tools'')])\<rparr>)
     (get_plugin_display_name_map
       (no_options\<lparr>plugin_display_names := Present (PyList [PyStr (str ''foo:Foo Tools'')])\<rparr>))
     (plugin ''foo'' ''w.main'') = Some (str ''Foo Tools'', Some (str ''w.main''))
   \<and> handler_entry
       (no_options\<lparr>plugin_display_names := Present (PyList [PyStr (str ''foo:Foo Tools'')])\<rparr>)
       (Some (str ''w.main'')) (Handler today_handler) = Some today_entry
   \<and> today_entry \<in> set (group_of (fst (get_all_commands
       (no_options\<lparr>plugin_display_names := Present (PyList [PyStr (str ''foo:Foo Tools'')])\<rparr>)
       (host_of [plugin ''foo'' ''w.main'']))) (str ''Foo Tools''))
   \<and> fst (get_all_commands
       (no_options\<lparr>plugin_display_names := Present (PyList [PyStr (str ''foo:Foo Tools'')])\<rparr>)
       (host_of [plugin ''foo'' ''w.main''])) = [(str ''Foo Tools'', [today_entry])]"
proof -
  let ?cfg =
    "no_options\<lparr>plugin_display_names := Present (PyList [PyStr (str ''foo:Foo Tools'')])\<rparr>"
  have 1: "get_all_stars (host_of [plugin ''foo'' ''w.main'']) = Inr [plugin ''foo'' ''w.main'']"
    by (simp add: host_of_def)
  have 2: "plugin ''foo'' ''w.main'' \<in> set [plugin ''foo'' ''w.main'']" by simp
  have 3: "activated (plugin ''foo'' ''w.main'')" by (simp add: plugin_def)
  have 4: "getattr (name (plugin ''foo'' ''w.main'')) (Some unknown_plugin) = Some (str ''foo'')"
    by (simp add: plugin_def)
  have 5: "listed_plugin ?cfg (get_plugin_display_name_map ?cfg) (plugin ''foo'' ''w.main'')
             = Some (str ''Foo Tools'', Some (str ''w.main''))"
    by (simp add: listed_defs eval_defs)
  have 6: "Handler today_handler
             \<in> set (star_handlers_registry (host_of [plugin ''foo'' ''w.main'']))"
    by (simp add: host_of_def registry_example_def)
  have 7: "handler_entry ?cfg (Some (str ''w.main'')) (Handler today_handler) = Some today_entry"
    by (simp add: listed_defs eval_defs)
  have 8: "fst (get_all_commands ?cfg (host_of [plugin ''foo'' ''w.main'']))
             = [(str ''Foo Tools'', [today_entry])]"
    by (simp add: eval_defs)
  show ?thesis
    using 5 7 8 group_key_is_display_name [OF 1 2 3 4 5 6 7] by simp
qed

subsection \<open>Failing softly\<close>











end
